theory Spec2Isabelle
  imports Main "HOL-Library.Multiset"
begin

section \<open>Values, dictionaries and result records\<close>

text \<open>
  The values a parse stores under an argument name are arbitrary Python objects. The
  model keeps the atomic ones; \<open>PEmpty\<close> is the sentinel \<open>Empty\<close> of nepattern.
\<close>

datatype pyval = PNone | PEmpty | PBool bool | PInt int | PStr string

text \<open>
  Two models of a Python dict. A dict of argument values (\<open>main_args\<close>, \<open>other_args\<close>,
  the \<open>args\<close> of a result, keyword arguments) is only looked up, merged and compared,
  so it is a map: \<open>{**a, **b}\<close> is \<open>a ++ b\<close>. The dicts of option and subcommand
  results are iterated in insertion order by \<open>encapsulate_result\<close>, so they are
  association lists; a lookup takes the entry of the key.
\<close>

type_synonym args_dict = "string \<rightharpoonup> pyval"

type_synonym 'v dict = "(string \<times> 'v) list"

definition dict_get :: "'v dict \<Rightarrow> string \<Rightarrow> 'v option" where
  "dict_get d k = map_of d k"

definition dict_in :: "string \<Rightarrow> 'v dict \<Rightarrow> bool" where
  "dict_in k d = (k \<in> set (map fst d))"

text \<open>
  Modelled from the spec: the module \<open>model\<close> that declares \<open>HeadResult\<close>,
  \<open>OptionResult\<close> and \<open>SubcommandResult\<close> is not among the sources. The spec describes
  them as structured records holding whether the head matched, the header groups, the
  dict of argument name to parsed value and, for a subcommand, the nested option
  results; \<open>arparma.py\<close> reads the attributes \<open>value\<close>, \<open>args\<close> and \<open>options\<close>.
  The fields of a subcommand result carry the prefix \<open>sub_\<close> here, since a field name
  is global in a theory.
\<close>

record HeadResult =
  head_matched :: bool
  groups :: "string \<rightharpoonup> string"

record OptionResult =
  "value" :: pyval
  args :: args_dict

record SubcommandResult =
  sub_value :: pyval
  sub_args :: args_dict
  sub_options :: "OptionResult dict"

definition HeadResult_default :: HeadResult where
  "HeadResult_default = \<lparr>head_matched = False, groups = Map.empty\<rparr>"

section \<open>Errors\<close>

text \<open>
  \<open>AmbiguousName t\<close> is the \<open>RuntimeError\<close> that \<open>__require__\<close> raises with the message
  \<open>arpamar_ambiguous_name\<close> for target \<open>t\<close>; \<open>RuntimeError\<close> is the bare one of \<open>call\<close>.
  \<open>BehaveCancelled\<close> and \<open>OutBoundsBehave\<close> are the two signals of the behavior
  protocol, \<open>OtherError\<close> stands for any other exception a user callable raises.
\<close>

datatype error =
    AmbiguousName string
  | RuntimeError
  | IndexError
  | TypeError
  | BehaveCancelled
  | OutBoundsBehave string
  | OtherError string

datatype error_info = InfoStr string | InfoExc error

section \<open>The result object\<close>

record 'd Arparma =
  source_id :: string
  origin :: 'd
  matched :: bool
  header_match :: HeadResult
  error_data :: "pyval list"
  error_info :: error_info
  main_args :: args_dict
  other_args :: args_dict
  options :: "OptionResult dict"
  subcommands :: "SubcommandResult dict"

text \<open>The dataclass constructor \<open>Arparma(_source, origin, matched=..., error_info=...)\<close>
  with every other field at its default.\<close>

definition Arparma_new :: "string \<Rightarrow> 'd \<Rightarrow> bool \<Rightarrow> error_info \<Rightarrow> 'd Arparma" where
  "Arparma_new src orig m info =
     \<lparr>source_id = src, origin = orig, matched = m, header_match = HeadResult_default,
      error_data = [], error_info = info, main_args = Map.empty, other_args = Map.empty,
      options = [], subcommands = []\<rparr>"

definition all_matched_args :: "'d Arparma \<Rightarrow> args_dict" where
  "all_matched_args r = main_args r ++ other_args r"

text \<open>The keys of \<open>components\<close>, that is of \<open>{**self.options, **self.subcommands}\<close>.\<close>

definition in_components :: "string \<Rightarrow> 'd Arparma \<Rightarrow> bool" where
  "in_components k r = (dict_in k (options r) \<or> dict_in k (subcommands r))"

section \<open>Dotted-path queries\<close>

text \<open>
  \<open>__require__\<close> returns a pair of a source and an endpoint. The source is one of the
  dicts of the result, one option or subcommand result, or \<open>None\<close>. The endpoint is a
  string, except in \<open>_handle_opt\<close>, where \<open>_end := _parts.pop(0) == "value"\<close> binds the
  result of the comparison, a bool.
\<close>

datatype source =
    SrcArgs args_dict
  | SrcOptions "OptionResult dict"
  | SrcSubcommands "SubcommandResult dict"
  | SrcOpt OptionResult
  | SrcSub SubcommandResult
  | SrcNone

datatype endpoint = EStr string | EBool bool

text \<open>What a query returns: a stored value, a read-only view of a dict, or a whole
  option or subcommand result. A default is any of these.\<close>

datatype answer =
    AVal pyval
  | AArgs args_dict
  | AOptions "OptionResult dict"
  | ASubcommands "SubcommandResult dict"
  | AOpt OptionResult
  | ASub SubcommandResult

text \<open>\<open>path.split('.')\<close>: never the empty list.\<close>

fun split_dot :: "string \<Rightarrow> string list" where
  "split_dot [] = ['''']"
| "split_dot (c # cs) =
     (if c = CHR ''.'' then [] # split_dot cs
      else (case split_dot cs of [] \<Rightarrow> [c # []] | p # ps \<Rightarrow> (c # p) # ps))"

text \<open>\<open>s.replace(old, new)\<close> for a non-empty \<open>old\<close>: the occurrences from the left,
  not overlapping.\<close>

fun str_replace :: "string \<Rightarrow> string \<Rightarrow> string \<Rightarrow> string" where
  "str_replace old new [] = []"
| "str_replace old new (c # cs) =
     (if take (length old) (c # cs) = old
      then new @ str_replace old new (drop (length old - 1) cs)
      else c # str_replace old new cs)"

text \<open>\<open>getattr(self, part, {})\<close> for the four attribute names the code passes.\<close>

definition attr :: "'d Arparma \<Rightarrow> string \<Rightarrow> source" where
  "attr r part =
     (if part = ''options'' then SrcOptions (options r)
      else if part = ''subcommands'' then SrcSubcommands (subcommands r)
      else if part = ''main_args'' then SrcArgs (main_args r)
      else if part = ''other_args'' then SrcArgs (other_args r)
      else SrcArgs Map.empty)"

text \<open>
  \<open>_handle_opt\<close>. \<open>pop(0)\<close> on an empty list raises \<open>IndexError\<close>. An option result is
  an object, so \<open>not (__src := _opts.get(_pf))\<close> holds exactly when the key is absent.
  The endpoint \<open>_end\<close> is the bool of the comparison with \<open>"value"\<close>, and the test
  \<open>_end == 'args'\<close> compares that bool with a string.
\<close>

definition handle_opt ::
  "string \<Rightarrow> string list \<Rightarrow> OptionResult dict \<Rightarrow> error + source \<times> endpoint" where
  "handle_opt pf0 parts0 opts =
     (case (if pf0 = ''options''
            then (case parts0 of [] \<Rightarrow> Inl IndexError | p # ps \<Rightarrow> Inr (p, ps))
            else Inr (pf0, parts0)) of
        Inl e \<Rightarrow> Inl e
      | Inr (pf, parts) \<Rightarrow>
         (case parts of
            [] \<Rightarrow> Inr (SrcOptions opts, EStr pf)
          | e # rest \<Rightarrow>
             (case dict_get opts pf of
                None \<Rightarrow> Inr (SrcOptions opts, EStr pf)
              | Some src \<Rightarrow>
                 (let end = EBool (e = ''value'') in
                  if e = ''value'' then Inr (SrcOpt src, end)
                  else if end = EStr ''args'' then
                    (case rest of [] \<Rightarrow> Inr (SrcOpt src, end)
                     | p # _ \<Rightarrow> Inr (SrcArgs (args src), EStr p))
                  else Inr (SrcArgs (args src), end)))))"

text \<open>The branch of \<open>__require__\<close> for a path of several segments whose prefix is
  \<open>subcommands\<close> or the name of a subcommand result.\<close>

definition require_sub ::
  "'d Arparma \<Rightarrow> string \<Rightarrow> string list \<Rightarrow> error + source \<times> endpoint" where
  "require_sub r prefix0 parts0 =
     (case (if prefix0 = ''subcommands''
            then (case parts0 of [] \<Rightarrow> Inl IndexError | p # ps \<Rightarrow> Inr (p, ps))
            else Inr (prefix0, parts0)) of
        Inl e \<Rightarrow> Inl e
      | Inr (prefix, parts) \<Rightarrow>
         (case parts of
            [] \<Rightarrow> Inr (SrcSubcommands (subcommands r), EStr prefix)
          | end # rest \<Rightarrow>
             (case dict_get (subcommands r) prefix of
                None \<Rightarrow> Inr (SrcSubcommands (subcommands r), EStr prefix)
              | Some src \<Rightarrow>
                 if end = ''value'' then Inr (SrcSub src, EStr end)
                 else if end = ''args'' then
                   (case rest of [] \<Rightarrow> Inr (SrcSub src, EStr end)
                    | p # _ \<Rightarrow> Inr (SrcArgs (sub_args src), EStr p))
                 else if end = ''options'' \<and> (dict_in end (sub_options src) \<or> rest = [])
                   then Inl (AmbiguousName (prefix @ ''.'' @ end))
                 else if end = ''options'' \<or> dict_in end (sub_options src)
                   then handle_opt end rest (sub_options src)
                 else Inr (SrcArgs (sub_args src), EStr end))))"

text \<open>
  \<open>__require__\<close>. A path of one segment is looked up in \<open>main_args\<close>, \<open>other_args\<close>,
  \<open>options\<close> and \<open>subcommands\<close>, in this order; then come the reserved words, for which
  the endpoint is empty. A longer path loses its first segment to \<open>pop(0)\<close>.
\<close>

definition require :: "'d Arparma \<Rightarrow> string list \<Rightarrow> error + source \<times> endpoint" where
  "require r parts =
     (case parts of
        [] \<Rightarrow> Inl IndexError
      | [part] \<Rightarrow>
          if part \<in> dom (main_args r) then Inr (SrcArgs (main_args r), EStr part)
          else if part \<in> dom (other_args r) then Inr (SrcArgs (other_args r), EStr part)
          else if dict_in part (options r) then Inr (SrcOptions (options r), EStr part)
          else if dict_in part (subcommands r)
            then Inr (SrcSubcommands (subcommands r), EStr part)
          else if part \<in> {''options'', ''subcommands'', ''main_args'', ''other_args''}
            then Inr (attr r part, EStr '''')
          else if part = ''args'' then Inr (SrcArgs (all_matched_args r), EStr '''')
          else Inr (SrcNone, EStr part)
      | prefix # rest \<Rightarrow>
          if prefix \<in> {''options'', ''subcommands''} \<and> in_components prefix r
            then Inl (AmbiguousName prefix)
          else if prefix = ''options'' \<or> dict_in prefix (options r)
            then handle_opt prefix rest (options r)
          else if prefix = ''subcommands'' \<or> dict_in prefix (subcommands r)
            then require_sub r prefix rest
          else
            (let prefix' = str_replace ''$other'' ''other_args''
                             (str_replace ''$main'' ''main_args'' prefix) in
             if prefix' \<in> {''main_args'', ''other_args''}
             then (case rest of [] \<Rightarrow> Inl IndexError
                   | p # _ \<Rightarrow> Inr (attr r prefix', EStr p))
             else Inr (SrcNone, EStr prefix')))"

text \<open>Python truthiness of an endpoint: a non-empty string, or \<open>True\<close>.\<close>

fun truthy :: "endpoint \<Rightarrow> bool" where
  "truthy (EStr s) = (s \<noteq> [])"
| "truthy (EBool b) = b"

text \<open>
  Modelled from the spec: the \<open>get\<close> of an option or subcommand result (module
  \<open>model\<close>, not among the sources). By the spec the final segment \<open>value\<close> unwraps the
  result's value and \<open>args\<close> returns its args dict: \<open>get\<close> reads the field of that
  name, and gives the default for any other key, a bool among them.
\<close>

fun option_result_get :: "OptionResult \<Rightarrow> endpoint \<Rightarrow> answer \<Rightarrow> answer" where
  "option_result_get res (EStr k) dflt =
     (if k = ''value'' then AVal (value res)
      else if k = ''args'' then AArgs (args res) else dflt)"
| "option_result_get res (EBool b) dflt = dflt"

fun subcommand_result_get :: "SubcommandResult \<Rightarrow> endpoint \<Rightarrow> answer \<Rightarrow> answer" where
  "subcommand_result_get res (EStr k) dflt =
     (if k = ''value'' then AVal (sub_value res)
      else if k = ''args'' then AArgs (sub_args res)
      else if k = ''options'' then AOptions (sub_options res) else dflt)"
| "subcommand_result_get res (EBool b) dflt = dflt"

text \<open>\<open>source.get(endpoint, default)\<close>. The keys of every dict are strings, so a bool
  endpoint is the key of no entry. \<open>query\<close> calls it on a source that is not \<open>None\<close>.\<close>

fun source_get :: "source \<Rightarrow> endpoint \<Rightarrow> answer \<Rightarrow> answer" where
  "source_get (SrcArgs d) (EStr k) dflt =
     (case d k of None \<Rightarrow> dflt | Some v \<Rightarrow> AVal v)"
| "source_get (SrcOptions d) (EStr k) dflt =
     (case dict_get d k of None \<Rightarrow> dflt | Some v \<Rightarrow> AOpt v)"
| "source_get (SrcSubcommands d) (EStr k) dflt =
     (case dict_get d k of None \<Rightarrow> dflt | Some v \<Rightarrow> ASub v)"
| "source_get (SrcOpt res) e dflt = option_result_get res e dflt"
| "source_get (SrcSub res) e dflt = subcommand_result_get res e dflt"
| "source_get _ _ dflt = dflt"

text \<open>\<open>MappingProxyType(source)\<close>: a view of a dict; anything else is a \<open>TypeError\<close>.\<close>

fun proxy :: "source \<Rightarrow> error + answer" where
  "proxy (SrcArgs d) = Inr (AArgs d)"
| "proxy (SrcOptions d) = Inr (AOptions d)"
| "proxy (SrcSubcommands d) = Inr (ASubcommands d)"
| "proxy _ = Inl TypeError"

definition query :: "'d Arparma \<Rightarrow> string \<Rightarrow> answer \<Rightarrow> error + answer" where
  "query r path dflt =
     (case require r (split_dot path) of
        Inl e \<Rightarrow> Inl e
      | Inr (src, endpoint) \<Rightarrow>
          if src = SrcNone then Inr dflt
          else if truthy endpoint then Inr (source_get src endpoint dflt)
          else proxy src)"


section \<open>Filling the result\<close>

text \<open>
  \<open>encapsulate_result\<close>. The three arguments are copied into the result; \<open>other_args\<close>
  is merged, starting from the value it has, with the \<open>args\<close> of every option result,
  then for every subcommand result with its \<open>args\<close> and the \<open>args\<close> of each of its
  option results.
\<close>

definition merge_option_args :: "OptionResult dict \<Rightarrow> args_dict \<Rightarrow> args_dict" where
  "merge_option_args opts oa = fold (\<lambda>(k, v) acc. acc ++ args v) opts oa"

definition merge_subcommand_args :: "SubcommandResult dict \<Rightarrow> args_dict \<Rightarrow> args_dict" where
  "merge_subcommand_args subs oa =
     fold (\<lambda>(k, v) acc.
             (let acc' = acc ++ sub_args v in
              if sub_options v \<noteq> [] then merge_option_args (sub_options v) acc' else acc'))
          subs oa"

definition encapsulate_result ::
  "'d Arparma \<Rightarrow> args_dict \<Rightarrow> OptionResult dict \<Rightarrow> SubcommandResult dict \<Rightarrow> 'd Arparma" where
  "encapsulate_result r m opts subs =
     r\<lparr>main_args := m, options := opts, subcommands := subs,
       other_args := merge_subcommand_args subs (merge_option_args opts (other_args r))\<rparr>"

text \<open>The dicts that the claim about \<open>other_args\<close> names, in the order of merging, and
  their union with the later dict winning on a shared key.\<close>

definition every_args_dict :: "OptionResult dict \<Rightarrow> SubcommandResult dict \<Rightarrow> args_dict list" where
  "every_args_dict opts subs =
     map (\<lambda>(k, v). args v) opts
     @ concat (map (\<lambda>(k, v). sub_args v # map (\<lambda>(kk, vv). args vv) (sub_options v)) subs)"

definition union_of :: "args_dict list \<Rightarrow> args_dict" where
  "union_of ds = foldl (++) Map.empty ds"

section \<open>Behaviors\<close>

text \<open>
  A behavior has its \<open>requires\<close> list and its \<open>operate\<close>. \<open>operate\<close> receives the result
  object and may change it; it ends normally or raises. The model returns the error
  raised, if any, and the result object as \<open>operate\<close> left it. The entries of \<open>requires\<close>
  are behaviors by the declared type of the attribute, so the \<open>isinstance\<close> test of
  \<open>requirement_handler\<close> holds for each of them.
\<close>

datatype 'd Behavior =
  Behavior (behavior_requires: "'d Behavior list")
           (operate: "'d Arparma \<Rightarrow> error option \<times> 'd Arparma")

fun requirement_handler :: "'d Behavior \<Rightarrow> 'd Behavior list" where
  "requirement_handler (Behavior reqs opr) =
     concat (map requirement_handler reqs) @ [Behavior reqs opr]"

definition fail :: "'d Arparma \<Rightarrow> error_info \<Rightarrow> 'd Arparma" where
  "fail r exc = Arparma_new (source_id r) (origin r) False exc"

text \<open>
  The loop \<open>for b in exc_behaviors\<close> of \<open>execute\<close>. It ends in one of three ways: the
  list is exhausted, \<open>return self._fail(e)\<close> is taken, or an exception that no handler
  catches leaves it. The second component lists the behaviors whose \<open>operate\<close> was
  called, in order.
\<close>

datatype 'd loop_exit = Exhausted "'d Arparma" | Returned "'d Arparma" | Propagated error

fun run_behaviors :: "'d Arparma \<Rightarrow> 'd Behavior list \<Rightarrow> 'd loop_exit \<times> 'd Behavior list" where
  "run_behaviors r [] = (Exhausted r, [])"
| "run_behaviors r (b # bs) =
     (case operate b r of
        (None, r') \<Rightarrow> (case run_behaviors r' bs of (x, called) \<Rightarrow> (x, b # called))
      | (Some BehaveCancelled, r') \<Rightarrow>
          (case run_behaviors r' bs of (x, called) \<Rightarrow> (x, b # called))
      | (Some (OutBoundsBehave m), r') \<Rightarrow> (Returned (fail r' (InfoExc (OutBoundsBehave m))), [b])
      | (Some e, r') \<Rightarrow> (Propagated e, [b]))"

text \<open>What the caller of \<open>execute\<close> sees of a loop exit.\<close>

fun exit_result :: "'d loop_exit \<Rightarrow> error + 'd Arparma" where
  "exit_result (Exhausted r) = Inr r"
| "exit_result (Returned r) = Inr r"
| "exit_result (Propagated e) = Inl e"

text \<open>
  \<open>execute\<close>. The behaviors of the source command come from the command registry,
  which is not among the sources; they are the first argument. \<open>behaviors\<close> is a list or
  \<open>None\<close>.
\<close>

definition execute ::
  "'d Behavior list \<Rightarrow> 'd Arparma \<Rightarrow> 'd Behavior list option
     \<Rightarrow> (error + 'd Arparma) \<times> 'd Behavior list" where
  "execute source_behaviors r behaviors =
     (let bs = tl source_behaviors @ (case behaviors of None \<Rightarrow> [] | Some l \<Rightarrow> l) in
      if bs \<noteq> [] then
        (case run_behaviors r (concat (map requirement_handler bs)) of
           (x, called) \<Rightarrow> (exit_result x, called))
      else (Inr r, []))"

section \<open>Calling a target with the matched arguments\<close>

text \<open>
  Modelled from the spec: \<open>get_signature\<close> (module \<open>util\<close>) is not among the sources; by
  the spec \<open>call\<close> introspects the parameter names of the target. A target is a Python
  callable: its parameter names, and what the call \<open>target(**kwargs)\<close> does, which is
  to return a value or to raise (a parameter without default that \<open>kwargs\<close> lacks is a
  \<open>TypeError\<close>).
\<close>

record target =
  param_names :: "string list"
  invoke :: "args_dict \<Rightarrow> error + pyval"

definition call :: "'d Arparma \<Rightarrow> target \<Rightarrow> args_dict \<Rightarrow> error + pyval" where
  "call r t additional =
     (if matched r
      then invoke t ((all_matched_args r ++ additional) |` set (param_names t))
      else Inl RuntimeError)"

section \<open>Compiling a command into the analyser's tables\<close>

text \<open>
  Modelled from the spec: the node classes (module \<open>base\<close>) and the analyser class
  are not among the sources. By the spec a node has a name, a list of requirement
  words and a set of separators; an option has a set of aliases and an integer
  priority; a subcommand has its own options, \<open>nargs\<close> and the derived alias table
  \<open>sub_params\<close>. \<open>range(n)\<close> is kept as \<open>n\<close>. The aliases are a set, listed in the order
  the loop visits them.
\<close>

record CommandNode =
  name :: string
  requires :: "string list"
  separators :: "string list"

record Option = CommandNode +
  aliases :: "string list"
  priority :: int

datatype 's param = Sentence string | Opts "Option list" | Sub 's

record Subcommand = CommandNode +
  nargs :: nat
  node_options :: "Option list"
  sub_params :: "string \<rightharpoonup> unit param"
  sub_part_len :: nat

datatype node = NOption Option | NSubcommand Subcommand

record Analyser =
  alconna_options :: "node list"
  analyser_separators :: "string list"
  need_main_args :: bool
  default_separate :: bool
  command_params :: "string \<rightharpoonup> Subcommand param"
  param_ids :: "string set"
  part_len :: nat

text \<open>\<open>li.sort(key=lambda x: x.priority, reverse=True)\<close>: Python's sort is stable, also
  with \<open>reverse=True\<close>, so it is the stable sort on the negated key.\<close>

definition sort_by_priority :: "Option list \<Rightarrow> Option list" where
  "sort_by_priority li = sort_key (\<lambda>x. - priority x) li"

text \<open>One round of the loop of \<open>_compile_opts\<close>. The test \<open>li and isinstance(li, list)\<close>
  holds for a non-empty list only.\<close>

definition compile_alias :: "Option \<Rightarrow> string \<Rightarrow> (string \<rightharpoonup> 's param) \<Rightarrow> (string \<rightharpoonup> 's param)" where
  "compile_alias option alias data =
     (case data alias of
        Some (Opts li) \<Rightarrow>
          if li \<noteq> [] then data(alias \<mapsto> Opts (sort_by_priority (li @ [option])))
          else data(alias \<mapsto> Opts [option])
      | _ \<Rightarrow> data(alias \<mapsto> Opts [option]))"

definition compile_opts :: "Option \<Rightarrow> (string \<rightharpoonup> 's param) \<Rightarrow> (string \<rightharpoonup> 's param)" where
  "compile_opts option data = fold (compile_alias option) (aliases option) data"

definition setdefault :: "string \<Rightarrow> 'v \<Rightarrow> (string \<rightharpoonup> 'v) \<Rightarrow> (string \<rightharpoonup> 'v)" where
  "setdefault k v d = (if k \<in> dom d then d else d(k \<mapsto> v))"

definition add_sentences :: "string list \<Rightarrow> (string \<rightharpoonup> 's param) \<Rightarrow> (string \<rightharpoonup> 's param)" where
  "add_sentences ks d = fold (\<lambda>k acc. setdefault k (Sentence k) acc) ks d"

text \<open>The body of \<open>for sub_opts in opts.options\<close>; the state is \<open>opts.sub_params\<close>,
  \<open>sub_require_len\<close> and \<open>analyser.param_ids\<close>.\<close>

definition sub_opts_step ::
  "Option \<Rightarrow> (string \<rightharpoonup> unit param) \<times> nat \<times> string set
     \<Rightarrow> (string \<rightharpoonup> unit param) \<times> nat \<times> string set" where
  "sub_opts_step sub_opts st =
     (case st of (sp, sub_require_len, ids) \<Rightarrow>
        (let sp1 = compile_opts sub_opts sp in
         if requires sub_opts \<noteq> []
         then (add_sentences (requires sub_opts) sp1,
               max (length (requires sub_opts)) sub_require_len,
               ids \<union> set (aliases sub_opts))
         else (sp1, sub_require_len, ids \<union> set (aliases sub_opts))))"

text \<open>The branch \<open>isinstance(opts, Subcommand)\<close>: the subcommand as the loop leaves it,
  and the new \<open>param_ids\<close>.\<close>

definition compile_subcommand :: "Subcommand \<Rightarrow> string set \<Rightarrow> Subcommand \<times> string set" where
  "compile_subcommand opts ids =
     (case fold sub_opts_step (node_options opts) (sub_params opts, 0, insert (name opts) ids) of
        (sp, sub_require_len, ids') \<Rightarrow>
          (opts\<lparr>sub_params := sp,
                sub_part_len := length (node_options opts) + (if nargs opts \<noteq> 0 then 1 else 0)
                                + sub_require_len\<rparr>,
           ids'))"

fun node_requires :: "node \<Rightarrow> string list" where
  "node_requires (NOption opt) = requires opt"
| "node_requires (NSubcommand sub) = requires sub"

fun node_separators :: "node \<Rightarrow> string list" where
  "node_separators (NOption opt) = separators opt"
| "node_separators (NSubcommand sub) = separators sub"

text \<open>
  The body of \<open>for opts in analyser.alconna.options\<close>. The state is the analyser,
  \<open>require_len\<close> and the nodes visited so far in the state the loop left them in (a
  subcommand is changed in place; \<open>command_params\<close> holds a reference to it, so it
  sees the subcommand as changed). The assignment to \<open>part_len\<close> is the last statement
  of the loop body.
\<close>

definition node_step :: "node \<Rightarrow> Analyser \<times> nat \<times> node list \<Rightarrow> Analyser \<times> nat \<times> node list" where
  "node_step opts st =
     (case st of (a, require_len, visited) \<Rightarrow>
        (let (a1, opts') =
               (case opts of
                  NOption opt \<Rightarrow>
                    (a\<lparr>command_params := compile_opts opt (command_params a),
                       param_ids := param_ids a \<union> set (aliases opt)\<rparr>, opts)
                | NSubcommand sub \<Rightarrow>
                    (case compile_subcommand sub (param_ids a) of
                       (sub', ids) \<Rightarrow>
                         (a\<lparr>command_params := (command_params a)(name sub \<mapsto> Sub sub'),
                            param_ids := ids\<rparr>, NSubcommand sub')));
             a2 = (if \<not> set (node_separators opts) \<subseteq> set (analyser_separators a1)
                   then a1\<lparr>default_separate := False\<rparr> else a1);
             (a3, require_len') =
               (if node_requires opts \<noteq> []
                then (a2\<lparr>param_ids := param_ids a2 \<union> set (node_requires opts),
                         command_params := add_sentences (node_requires opts) (command_params a2)\<rparr>,
                      max (length (node_requires opts)) require_len)
                else (a2, require_len))
         in (a3\<lparr>part_len := length (alconna_options a)
                              + (if need_main_args a then 1 else 0) + require_len'\<rparr>,
             require_len', visited @ [opts'])))"

definition default_params_parser :: "Analyser \<Rightarrow> Analyser" where
  "default_params_parser analyser =
     (case fold node_step (alconna_options analyser) (analyser, 0, []) of
        (a, require_len, visited) \<Rightarrow> a\<lparr>alconna_options := visited\<rparr>)"

text \<open>
  The invariant of an alias table that the spec states, relative to the options
  registered so far in registration order: an alias that a registered option declares
  is mapped to a list, and every list in the table holds exactly the registered options
  that declare its alias (as a multiset), in descending priority, options of equal
  priority in registration order.
\<close>

definition declaring :: "string \<Rightarrow> Option list \<Rightarrow> Option list" where
  "declaring alias registered = filter (\<lambda>x. alias \<in> set (aliases x)) registered"

definition alias_table_inv :: "(string \<rightharpoonup> 's param) \<Rightarrow> Option list \<Rightarrow> bool" where
  "alias_table_inv data registered =
     (\<forall>alias.
        (declaring alias registered \<noteq> [] \<longrightarrow> (\<exists>li. data alias = Some (Opts li)))
        \<and> (\<forall>li. data alias = Some (Opts li) \<longrightarrow>
              mset li = mset (declaring alias registered)
              \<and> sorted_wrt (\<lambda>x y. priority x \<ge> priority y) li
              \<and> (\<forall>p. filter (\<lambda>x. priority x = p) li
                       = filter (\<lambda>x. priority x = p) (declaring alias registered))))"

text \<open>The quantities of the spec's bound on the number of iterations: the longest
  requirement chain among nodes (0 when there is none), and the nodes as the parser
  leaves them.\<close>

definition max_requires :: "string list list \<Rightarrow> nat" where
  "max_requires reqs = Max (insert 0 (set (map length reqs)))"

definition compiled_node :: "node \<Rightarrow> node" where
  "compiled_node opts =
     (case opts of NOption opt \<Rightarrow> NOption opt
      | NSubcommand sub \<Rightarrow> NSubcommand (fst (compile_subcommand sub {})))"

fun option_aliases :: "node \<Rightarrow> string set" where
  "option_aliases (NOption opt) = set (aliases opt)"
| "option_aliases (NSubcommand sub) = {name sub}"

text \<open>
  What one round of each loop does to each part of its state, separately: the
  rounds change the table, the length and the set of ids independently of each other.
\<close>

definition sub_table_step :: "Option \<Rightarrow> (string \<rightharpoonup> unit param) \<Rightarrow> (string \<rightharpoonup> unit param)" where
  "sub_table_step sub_opts sp = add_sentences (requires sub_opts) (compile_opts sub_opts sp)"

definition node_table_step ::
  "node \<Rightarrow> (string \<rightharpoonup> Subcommand param) \<Rightarrow> (string \<rightharpoonup> Subcommand param)" where
  "node_table_step opts cp =
     add_sentences (node_requires opts)
       (case opts of
          NOption opt \<Rightarrow> compile_opts opt cp
        | NSubcommand sub \<Rightarrow> cp(name sub \<mapsto> Sub (fst (compile_subcommand sub {}))))"

fun node_ids :: "node \<Rightarrow> string set" where
  "node_ids (NOption opt) = set (aliases opt) \<union> set (requires opt)"
| "node_ids (NSubcommand sub) =
     insert (name sub) (\<Union>x \<in> set (node_options sub). set (aliases x)) \<union> set (requires sub)"

section \<open>Example inputs\<close>

text \<open>A result in which an option and a subcommand are both named \<open>foo\<close>.\<close>

definition foo_option_result :: OptionResult where
  "foo_option_result = \<lparr>value = PInt 1, args = [''x'' \<mapsto> PInt 2]\<rparr>"

definition foo_subcommand_result :: SubcommandResult where
  "foo_subcommand_result =
     \<lparr>sub_value = PInt 3, sub_args = [''y'' \<mapsto> PInt 4], sub_options = []\<rparr>"

definition foo_arparma :: "string Arparma" where
  "foo_arparma = (Arparma_new ''cmd'' ''cmd foo'' True (InfoStr ''''))\<lparr>
      options := [(''foo'', foo_option_result)],
      subcommands := [(''foo'', foo_subcommand_result)]\<rparr>"

text \<open>A result whose \<open>main_args\<close> has the empty string as a key, and one that stores the
  sentinel \<open>Empty\<close> under \<open>x\<close>.\<close>

definition empty_key_arparma :: "string Arparma" where
  "empty_key_arparma = (Arparma_new ''cmd'' ''cmd 1'' True (InfoStr ''''))\<lparr>
      main_args := ['''' \<mapsto> PInt 1]\<rparr>"

definition stored_empty_arparma :: "string Arparma" where
  "stored_empty_arparma = (Arparma_new ''cmd'' ''cmd'' True (InfoStr ''''))\<lparr>
      main_args := [''x'' \<mapsto> PEmpty]\<rparr>"

text \<open>A result that already has an entry in \<open>other_args\<close>, and dicts to fill a result with.\<close>

definition stale_arparma :: "string Arparma" where
  "stale_arparma = (Arparma_new ''cmd'' ''cmd'' True (InfoStr ''''))\<lparr>
      other_args := [''old'' \<mapsto> PInt 9]\<rparr>"

definition bar_subcommand_result :: SubcommandResult where
  "bar_subcommand_result =
     \<lparr>sub_value = PNone, sub_args = [''x'' \<mapsto> PInt 5],
      sub_options = [(''baz'', \<lparr>value = PNone, args = [''y'' \<mapsto> PInt 6]\<rparr>)]\<rparr>"

text \<open>Three behaviors: one that cancels itself, one that fails the result, and one
  that requires the first and records a value in \<open>error_data\<close>.\<close>

definition cancel_behavior :: "string Behavior" where
  "cancel_behavior = Behavior [] (\<lambda>r. (Some BehaveCancelled, r))"

definition fail_behavior :: "string Behavior" where
  "fail_behavior = Behavior [] (\<lambda>r. (Some (OutBoundsBehave ''out''), r))"

definition mark_behavior :: "string Behavior" where
  "mark_behavior =
     Behavior [cancel_behavior] (\<lambda>r. (None, r\<lparr>error_data := error_data r @ [PInt 1]\<rparr>))"

text \<open>The target \<open>def target(x): return x\<close>, and results to call it with.\<close>

definition target_x :: target where
  "target_x = \<lparr>param_names = [''x''],
               invoke = (\<lambda>kw. case kw ''x'' of None \<Rightarrow> Inl TypeError | Some v \<Rightarrow> Inr v)\<rparr>"

definition x_arparma :: "string Arparma" where
  "x_arparma = (Arparma_new ''cmd'' ''cmd 1'' True (InfoStr ''''))\<lparr>
      main_args := [''x'' \<mapsto> PInt 1, ''z'' \<mapsto> PInt 3]\<rparr>"

definition unmatched_arparma :: "string Arparma" where
  "unmatched_arparma = Arparma_new ''cmd'' ''other'' False (InfoStr ''header'')"

text \<open>Three options that share the alias \<open>-x\<close>, in registration order.\<close>

definition low_option :: Option where
  "low_option = \<lparr>name = ''--low'', requires = [], separators = ['' ''],
                 aliases = [''--low'', ''-x''], priority = 0\<rparr>"

definition high_option :: Option where
  "high_option = \<lparr>name = ''--high'', requires = [], separators = ['' ''],
                  aliases = [''--high'', ''-x''], priority = 5\<rparr>"

definition late_option :: Option where
  "late_option = \<lparr>name = ''--late'', requires = [], separators = ['' ''],
                  aliases = [''-x''], priority = 0\<rparr>"

text \<open>Analysers as they are before the parser runs, an option with a requirement
  word, an option with that word as its alias, and a subcommand whose option has a
  requirement chain.\<close>

definition new_analyser :: "node list \<Rightarrow> bool \<Rightarrow> Analyser" where
  "new_analyser opts need =
     \<lparr>alconna_options = opts, analyser_separators = ['' ''], need_main_args = need,
      default_separate = True, command_params = Map.empty, param_ids = {}, part_len = 0\<rparr>"

definition set_option :: Option where
  "set_option = \<lparr>name = ''set'', requires = [''perm''], separators = ['' ''],
                 aliases = [''set''], priority = 0\<rparr>"

definition perm_option :: Option where
  "perm_option = \<lparr>name = ''perm'', requires = [], separators = ['' ''],
                  aliases = [''perm''], priority = 0\<rparr>"

definition user_subcommand :: Subcommand where
  "user_subcommand =
     \<lparr>name = ''user'', requires = [''lp''], separators = ['' ''], nargs = 1,
      node_options = [set_option], sub_params = Map.empty, sub_part_len = 0\<rparr>"

section \<open>Properties of the dotted-path query\<close>

lemma split_dot_nonempty: "split_dot s \<noteq> []"
  by (induction s) (auto split: list.splits)

lemma split_dot_single: "CHR ''.'' \<notin> set s \<Longrightarrow> split_dot s = [s]"
  by (induction s) auto

lemma split_dot_segment:
  "CHR ''.'' \<notin> set a \<Longrightarrow> split_dot (a @ CHR ''.'' # b) = a # split_dot b"
  by (induction a) (auto split: list.splits simp: split_dot_nonempty)

lemma dict_in_iff: "dict_in k d \<longleftrightarrow> dict_get d k \<noteq> None"
  by (simp add: dict_in_def dict_get_def map_of_eq_None_iff)

text \<open>
  Claim C1, as the spec states it: with an option and a subcommand both named \<open>foo\<close>,
  \<open>query("options.foo")\<close> gives the option's result and \<open>query("foo")\<close> raises the
  ambiguity error. The second half fails: a one-segment path is looked up in
  \<open>main_args\<close>, \<open>other_args\<close>, \<open>options\<close>, \<open>subcommands\<close> in this order and the first hit
  is returned, so \<open>query("foo")\<close> returns the option's result here.
\<close>

theorem query_bare_foo_counterexample:
  "dict_in ''foo'' (options foo_arparma) \<and> dict_in ''foo'' (subcommands foo_arparma)
   \<and> query foo_arparma ''foo'' (AVal PNone) = Inr (AOpt foo_option_result)"
  by (simp add: foo_arparma_def Arparma_new_def dict_in_def dict_get_def query_def require_def)

text \<open>
  Claim C1, amended: when an option and a subcommand are both named \<open>foo\<close> and no
  option or subcommand is named \<open>options\<close>, \<open>query("options.foo")\<close> gives the option's
  result, and \<open>query("foo")\<close> raises nothing: it returns a value, which is the option's
  result when \<open>foo\<close> is a key of neither \<open>main_args\<close> nor \<open>other_args\<close>.
\<close>

theorem query_same_name_option_and_subcommand:
  assumes "dict_get (options r) ''foo'' = Some res"
    and "dict_in ''foo'' (subcommands r)"
    and "\<not> in_components ''options'' r"
  shows "query r ''options.foo'' dflt = Inr (AOpt res)
       \<and> (\<exists>a. query r ''foo'' dflt = Inr a)
       \<and> (''foo'' \<notin> dom (main_args r) \<and> ''foo'' \<notin> dom (other_args r)
            \<longrightarrow> query r ''foo'' dflt = Inr (AOpt res))"
proof -
  have in_opts: "dict_in ''foo'' (options r)"
    using assms(1) by (simp add: dict_in_iff)
  have scoped: "query r ''options.foo'' dflt = Inr (AOpt res)"
    using assms(1,3) by (simp add: query_def require_def handle_opt_def)
  have bare: "\<exists>a. query r ''foo'' dflt = Inr a"
    using in_opts by (simp add: query_def require_def)
  have first: "query r ''foo'' dflt = Inr (AOpt res)"
    if "''foo'' \<notin> dom (main_args r)" "''foo'' \<notin> dom (other_args r)"
    using that in_opts assms(1) by (simp add: query_def require_def)
  from scoped bare first show ?thesis by blast
qed

theorem query_same_name_witness:
  "dict_get (options foo_arparma) ''foo'' = Some foo_option_result
   \<and> dict_in ''foo'' (subcommands foo_arparma)
   \<and> \<not> in_components ''options'' foo_arparma
   \<and> query foo_arparma ''options.foo'' (AVal PNone) = Inr (AOpt foo_option_result)"
  using query_same_name_option_and_subcommand [of foo_arparma foo_option_result "AVal PNone"]
  by (simp add: foo_arparma_def Arparma_new_def dict_in_def dict_get_def in_components_def)

text \<open>
  Claim C2: a final segment \<open>value\<close> yields the stored value of the result the path scopes
  into. On the option path the code does not: \<open>_handle_opt\<close> binds \<open>_end\<close> to the bool
  of the comparison with \<open>"value"\<close>, so \<open>query\<close> asks the option result for the key
  \<open>True\<close> and returns the default. The subcommand path, which parenthesises the
  assignment, returns the stored value. The theorem evaluates both on \<open>foo_arparma\<close>.
\<close>

theorem query_option_value_evaluated:
  "dict_get (options foo_arparma) ''foo'' = Some foo_option_result
   \<and> value foo_option_result = PInt 1
   \<and> query foo_arparma ''options.foo.value'' (AVal PNone) = Inr (AVal PNone)
   \<and> query foo_arparma ''subcommands.foo.value'' (AVal PNone) = Inr (AVal (PInt 3))"
  by (simp add: foo_arparma_def foo_option_result_def foo_subcommand_result_def Arparma_new_def
      dict_in_def dict_get_def in_components_def query_def require_def handle_opt_def
      require_sub_def)

text \<open>The same for every option name and every subcommand name without a dot.\<close>

lemma query_option_value_is_default:
  assumes "CHR ''.'' \<notin> set n" and "dict_get (options r) n = Some res"
    and "\<not> in_components ''options'' r"
  shows "query r (''options.'' @ n @ ''.value'') dflt = Inr dflt"
proof -
  have "split_dot (''options.'' @ n @ ''.value'') = [''options'', n, ''value'']"
    using split_dot_segment [of "''options''" "n @ ''.value''"]
      split_dot_segment [of n "''value''"] assms(1) by simp
  then show ?thesis
    using assms(2,3) by (simp add: query_def require_def handle_opt_def in_components_def)
qed

lemma query_subcommand_value_is_stored:
  assumes "CHR ''.'' \<notin> set n" and "dict_get (subcommands r) n = Some res"
    and "\<not> in_components ''subcommands'' r"
  shows "query r (''subcommands.'' @ n @ ''.value'') dflt = Inr (AVal (sub_value res))"
proof -
  have "split_dot (''subcommands.'' @ n @ ''.value'') = [''subcommands'', n, ''value'']"
    using split_dot_segment [of "''subcommands''" "n @ ''.value''"]
      split_dot_segment [of n "''value''"] assms(1) by simp
  then show ?thesis
    using assms(2,3) by (simp add: query_def require_def require_sub_def in_components_def)
qed

text \<open>
  Claim C5, as the spec states it: for every one-segment name that is not a reserved
  word, \<open>query\<close> returns the value stored under the name in the first of \<open>main_args\<close>,
  \<open>other_args\<close>, \<open>options\<close>, \<open>subcommands\<close> that has it. The empty name is a one-segment
  path and not a reserved word, but an empty endpoint stands for the whole dict: with
  \<open>main_args = {"": 1}\<close> the query returns the view of \<open>main_args\<close>, not \<open>1\<close>.
\<close>

theorem query_empty_name_counterexample:
  "CHR ''.'' \<notin> set []
   \<and> [] \<notin> {''options'', ''subcommands'', ''main_args'', ''other_args'', ''args''}
   \<and> main_args empty_key_arparma [] = Some (PInt 1)
   \<and> query empty_key_arparma [] (AVal PNone) = Inr (AArgs ['''' \<mapsto> PInt 1])"
  by (simp add: empty_key_arparma_def Arparma_new_def query_def require_def)

text \<open>
  Claim C5, amended: for every non-empty one-segment name that is not a reserved word,
  \<open>query(name, default)\<close> returns the value stored under the name in the first of
  \<open>main_args\<close>, \<open>other_args\<close>, \<open>options\<close>, \<open>subcommands\<close> that contains it, and the default
  when none does.
\<close>

theorem query_bare_name:
  assumes "CHR ''.'' \<notin> set n" and "n \<noteq> []"
    and "n \<notin> {''options'', ''subcommands'', ''main_args'', ''other_args'', ''args''}"
  shows "query r n dflt =
     Inr (case main_args r n of Some v \<Rightarrow> AVal v | None \<Rightarrow>
         (case other_args r n of Some v \<Rightarrow> AVal v | None \<Rightarrow>
         (case dict_get (options r) n of Some res \<Rightarrow> AOpt res | None \<Rightarrow>
         (case dict_get (subcommands r) n of Some res \<Rightarrow> ASub res | None \<Rightarrow> dflt))))"
proof -
  have parts: "split_dot n = [n]"
    using assms(1) by (rule split_dot_single)
  show ?thesis
    using assms(2,3)
    by (auto simp: query_def require_def parts dict_in_iff domIff split: option.splits)
qed

theorem query_bare_name_witness:
  "CHR ''.'' \<notin> set ''x'' \<and> ''x'' \<noteq> []
   \<and> ''x'' \<notin> {''options'', ''subcommands'', ''main_args'', ''other_args'', ''args''}
   \<and> query stored_empty_arparma ''x'' (AVal PNone) = Inr (AVal PEmpty)"
  using query_bare_name [of "''x''" stored_empty_arparma "AVal PNone"]
  by (simp add: stored_empty_arparma_def Arparma_new_def dict_get_def)



section \<open>Properties of filling the result\<close>

lemma foldl_map_add: "foldl (++) a ds = a ++ foldl (++) Map.empty ds"
proof (induction ds arbitrary: a)
  case Nil
  then show ?case by simp
next
  case (Cons d ds)
  have "foldl (++) (a ++ d) ds = (a ++ d) ++ foldl (++) Map.empty ds"
    by (rule Cons.IH)
  moreover have "foldl (++) d ds = d ++ foldl (++) Map.empty ds"
    by (rule Cons.IH)
  ultimately show ?case by simp
qed

lemma union_of_Cons: "union_of (d # ds) = d ++ union_of ds"
  using foldl_map_add [of d ds] by (simp add: union_of_def)

lemma union_of_append: "union_of (xs @ ys) = union_of xs ++ union_of ys"
  by (induction xs) (simp_all add: union_of_Cons, simp add: union_of_def)

lemma merge_option_args_union:
  "merge_option_args opts oa = oa ++ union_of (map (\<lambda>(k, v). args v) opts)"
proof (induction opts arbitrary: oa)
  case Nil
  then show ?case by (simp add: merge_option_args_def union_of_def)
next
  case (Cons p opts)
  have "merge_option_args (p # opts) oa = merge_option_args opts (oa ++ args (snd p))"
    by (simp add: merge_option_args_def split_beta)
  then show ?case
    by (simp add: Cons.IH union_of_Cons split_beta)
qed

lemma merge_subcommand_args_union:
  "merge_subcommand_args subs oa =
     oa ++ union_of (concat (map (\<lambda>(k, v). sub_args v # map (\<lambda>(kk, vv). args vv) (sub_options v)) subs))"
proof (induction subs arbitrary: oa)
  case Nil
  then show ?case by (simp add: merge_subcommand_args_def union_of_def)
next
  case (Cons p subs)
  have step: "merge_subcommand_args (p # subs) oa =
      merge_subcommand_args subs (merge_option_args (sub_options (snd p)) (oa ++ sub_args (snd p)))"
    by (cases "sub_options (snd p)")
       (simp_all add: merge_subcommand_args_def merge_option_args_def split_beta Let_def)
  show ?case
    unfolding step
    by (simp add: Cons.IH merge_option_args_union union_of_Cons union_of_append case_prod_unfold)
qed

text \<open>
  Claim C9, as the spec states it: after \<open>encapsulate_result\<close>, \<open>other_args\<close> equals the
  union of the args dicts of the option results, the subcommand results and the option
  results nested in a subcommand. \<open>encapsulate_result\<close> merges into the \<open>other_args\<close> the
  result already has: an entry that is in none of the merged dicts stays.
\<close>

theorem encapsulate_result_stale_counterexample:
  "other_args (encapsulate_result stale_arparma Map.empty [] []) ''old'' = Some (PInt 9)
   \<and> union_of (every_args_dict [] []) ''old'' = None"
  by (simp add: encapsulate_result_def stale_arparma_def Arparma_new_def
      merge_option_args_def merge_subcommand_args_def every_args_dict_def union_of_def)

text \<open>
  Claim C9, amended: after \<open>encapsulate_result(main_args, options, subcommands)\<close>,
  \<open>other_args\<close> equals its previous value merged with the union of every option
  result's args dict, every subcommand result's args dict and the args dict of every
  option nested directly in a subcommand, later-merged entries overwriting earlier
  ones; so it equals that union when \<open>other_args\<close> was empty before. \<open>all_matched_args\<close>
  equals \<open>main_args\<close> merged with \<open>other_args\<close>, \<open>other_args\<close> winning, and the three
  arguments are stored in the result.
\<close>

theorem encapsulate_result_other_args:
  "other_args (encapsulate_result r m opts subs)
     = other_args r ++ union_of (every_args_dict opts subs)
   \<and> (other_args r = Map.empty \<longrightarrow>
        other_args (encapsulate_result r m opts subs) = union_of (every_args_dict opts subs))
   \<and> all_matched_args (encapsulate_result r m opts subs)
     = m ++ other_args (encapsulate_result r m opts subs)
   \<and> main_args (encapsulate_result r m opts subs) = m
   \<and> options (encapsulate_result r m opts subs) = opts
   \<and> subcommands (encapsulate_result r m opts subs) = subs"
proof -
  have oa: "other_args (encapsulate_result r m opts subs)
     = other_args r ++ union_of (every_args_dict opts subs)"
    by (simp add: encapsulate_result_def merge_subcommand_args_union merge_option_args_union
        every_args_dict_def union_of_append)
  have rest: "all_matched_args (encapsulate_result r m opts subs)
       = m ++ other_args (encapsulate_result r m opts subs)"
    "main_args (encapsulate_result r m opts subs) = m"
    "options (encapsulate_result r m opts subs) = opts"
    "subcommands (encapsulate_result r m opts subs) = subs"
    by (simp_all add: encapsulate_result_def all_matched_args_def)
  from oa rest show ?thesis by simp
qed

theorem encapsulate_result_witness:
  "other_args unmatched_arparma = Map.empty
   \<and> other_args (encapsulate_result unmatched_arparma [''x'' \<mapsto> PInt 0]
        [(''foo'', foo_option_result)] [(''bar'', bar_subcommand_result)])
      = [''x'' \<mapsto> PInt 5, ''y'' \<mapsto> PInt 6]"
  using encapsulate_result_other_args [of unmatched_arparma "[''x'' \<mapsto> PInt 0]"
      "[(''foo'', foo_option_result)]" "[(''bar'', bar_subcommand_result)]"]
  by (simp add: unmatched_arparma_def Arparma_new_def every_args_dict_def union_of_def
      foo_option_result_def bar_subcommand_result_def)

section \<open>Properties of the behavior pipeline\<close>

lemma run_behaviors_append:
  "fst (run_behaviors r pre) = Exhausted r1 \<Longrightarrow>
   run_behaviors r (pre @ rest)
     = (fst (run_behaviors r1 rest), pre @ snd (run_behaviors r1 rest))"
proof (induction pre arbitrary: r)
  case Nil
  then show ?case by simp
next
  case (Cons b pre)
  obtain sig r' where op: "operate b r = (sig, r')"
    by (cases "operate b r")
  show ?case
  proof (cases sig)
    case None
    with op Cons.prems have "fst (run_behaviors r' pre) = Exhausted r1"
      by (simp split: prod.splits)
    from Cons.IH [OF this] op None show ?thesis
      by (simp split: prod.splits)
  next
    case (Some e)
    show ?thesis
    proof (cases "e = BehaveCancelled")
      case True
      with op Some Cons.prems have "fst (run_behaviors r' pre) = Exhausted r1"
        by (simp split: prod.splits)
      from Cons.IH [OF this] op Some True show ?thesis
        by (simp split: prod.splits)
    next
      case False
      with op Some Cons.prems show ?thesis
        by (cases e) simp_all
    qed
  qed
qed

text \<open>
  Claim C3: let the flattened list of behaviors be \<open>pre @ b # post\<close> and let the loop of
  \<open>execute\<close> reach \<open>b\<close> with the result in state \<open>ra\<close>. If \<open>operate\<close> of \<open>b\<close> raises
  \<open>BehaveCancelled\<close>, \<open>execute\<close> goes on with \<open>post\<close> as if \<open>b\<close> had ended normally: its
  outcome is that of running \<open>post\<close>, and the behaviors called are \<open>pre\<close>, \<open>b\<close> and those
  called in running \<open>post\<close>. If it raises \<open>OutBoundsBehave\<close>, \<open>execute\<close> returns (it does
  not raise) a result with \<open>matched = False\<close>, \<open>error_info\<close> the raised exception and the
  \<open>_source\<close> and \<open>origin\<close> of the result object, and the behaviors called are \<open>pre\<close> and
  \<open>b\<close> only.
\<close>

theorem execute_behavior_signals:
  assumes flat: "concat (map requirement_handler
                    (tl source_behaviors @ (case behaviors of None \<Rightarrow> [] | Some l \<Rightarrow> l)))
                 = pre @ b # post"
    and reach: "fst (run_behaviors r pre) = Exhausted ra"
  shows "(operate b ra = (Some BehaveCancelled, rb) \<longrightarrow>
            execute source_behaviors r behaviors
              = (exit_result (fst (run_behaviors rb post)),
                 pre @ b # snd (run_behaviors rb post)))
       \<and> (operate b ra = (Some (OutBoundsBehave msg), rb) \<longrightarrow>
            (\<exists>res. execute source_behaviors r behaviors = (Inr res, pre @ [b])
               \<and> matched res = False
               \<and> error_info res = InfoExc (OutBoundsBehave msg)
               \<and> source_id res = source_id rb \<and> origin res = origin rb))"
proof -
  let ?bs = "tl source_behaviors @ (case behaviors of None \<Rightarrow> [] | Some l \<Rightarrow> l)"
  have nonempty: "?bs \<noteq> []"
    using flat by auto
  have ex: "execute source_behaviors r behaviors
      = (exit_result (fst (run_behaviors ra (b # post))),
         pre @ snd (run_behaviors ra (b # post)))"
    using nonempty flat run_behaviors_append [OF reach, of "b # post"]
    by (simp add: execute_def Let_def)
  have cancelled: "execute source_behaviors r behaviors
        = (exit_result (fst (run_behaviors rb post)), pre @ b # snd (run_behaviors rb post))"
    if "operate b ra = (Some BehaveCancelled, rb)"
    unfolding ex using that by (simp split: prod.splits)
  have failed: "execute source_behaviors r behaviors
        = (Inr (fail rb (InfoExc (OutBoundsBehave msg))), pre @ [b])"
    if "operate b ra = (Some (OutBoundsBehave msg), rb)"
    unfolding ex using that by simp
  have fields: "matched (fail rb (InfoExc (OutBoundsBehave msg))) = False"
    "error_info (fail rb (InfoExc (OutBoundsBehave msg))) = InfoExc (OutBoundsBehave msg)"
    "source_id (fail rb (InfoExc (OutBoundsBehave msg))) = source_id rb"
    "origin (fail rb (InfoExc (OutBoundsBehave msg))) = origin rb"
    by (simp_all add: fail_def Arparma_new_def)
  from cancelled failed fields show ?thesis by blast
qed

theorem execute_behavior_signals_witness:
  "(\<exists>res. execute [] x_arparma (Some [mark_behavior, fail_behavior, mark_behavior])
             = (Inr res, [cancel_behavior, mark_behavior, fail_behavior])
          \<and> matched res = False \<and> error_info res = InfoExc (OutBoundsBehave ''out'')
          \<and> source_id res = ''cmd'' \<and> origin res = ''cmd 1'')
   \<and> execute [] x_arparma (Some [mark_behavior])
     = (Inr (x_arparma\<lparr>error_data := [PInt 1]\<rparr>), [cancel_behavior, mark_behavior])"
proof -
  let ?marked = "x_arparma\<lparr>error_data := [PInt 1]\<rparr>"
  have flat1: "concat (map requirement_handler
        (tl [] @ (case Some [mark_behavior, fail_behavior, mark_behavior] of
                    None \<Rightarrow> [] | Some l \<Rightarrow> l)))
      = [cancel_behavior, mark_behavior] @ fail_behavior # [cancel_behavior, mark_behavior]"
    by (simp add: mark_behavior_def cancel_behavior_def fail_behavior_def)
  have reach1: "fst (run_behaviors x_arparma [cancel_behavior, mark_behavior]) = Exhausted ?marked"
    by (simp add: mark_behavior_def cancel_behavior_def x_arparma_def Arparma_new_def)
  have op1: "operate fail_behavior ?marked = (Some (OutBoundsBehave ''out''), ?marked)"
    by (simp add: fail_behavior_def)
  have flat2: "concat (map requirement_handler
        (tl [] @ (case Some [mark_behavior] of None \<Rightarrow> [] | Some l \<Rightarrow> l)))
      = [] @ cancel_behavior # [mark_behavior]"
    by (simp add: mark_behavior_def cancel_behavior_def)
  have reach2: "fst (run_behaviors x_arparma []) = Exhausted x_arparma"
    by simp
  have op2: "operate cancel_behavior x_arparma = (Some BehaveCancelled, x_arparma)"
    by (simp add: cancel_behavior_def)
  have rest2: "run_behaviors x_arparma [mark_behavior] = (Exhausted ?marked, [mark_behavior])"
    by (simp add: mark_behavior_def x_arparma_def Arparma_new_def)
  have ids: "source_id ?marked = ''cmd''" "origin ?marked = ''cmd 1''"
    by (simp_all add: x_arparma_def Arparma_new_def)
  from execute_behavior_signals [OF flat1 reach1, where rb = ?marked and msg = "''out''"] op1
  have failed: "\<exists>res. execute [] x_arparma (Some [mark_behavior, fail_behavior, mark_behavior])
             = (Inr res, [cancel_behavior, mark_behavior] @ [fail_behavior])
          \<and> matched res = False \<and> error_info res = InfoExc (OutBoundsBehave ''out'')
          \<and> source_id res = source_id ?marked \<and> origin res = origin ?marked"
    by blast
  from execute_behavior_signals [OF flat2 reach2, where rb = x_arparma and msg = "''out''"] op2
  have "execute [] x_arparma (Some [mark_behavior])
     = (exit_result (fst (run_behaviors x_arparma [mark_behavior])),
        [] @ cancel_behavior # snd (run_behaviors x_arparma [mark_behavior]))"
    by blast
  then have cancelled: "execute [] x_arparma (Some [mark_behavior])
     = (Inr ?marked, [cancel_behavior, mark_behavior])"
    unfolding rest2 by simp
  from failed cancelled show ?thesis
    by (simp add: ids)
qed

section \<open>Properties of call\<close>

text \<open>
  Claim C4, as the spec states it: \<open>call\<close> raises an error if and only if \<open>matched\<close> is
  false. With \<open>matched\<close> true, \<open>call\<close> invokes the target, and what the invocation raises
  leaves \<open>call\<close>: the target \<open>def target(x)\<close> called on a result without an argument
  \<open>x\<close> raises \<open>TypeError\<close>.
\<close>

theorem call_target_raises_counterexample:
  "matched foo_arparma \<and> call foo_arparma target_x Map.empty = Inl TypeError"
  by (simp add: call_def foo_arparma_def Arparma_new_def target_x_def all_matched_args_def)

text \<open>
  Claim C4, amended: when \<open>matched\<close> is false, \<open>call\<close> raises \<open>RuntimeError\<close> whatever the
  target is (the target is not invoked); when \<open>matched\<close> is true it invokes the target
  with exactly those entries of \<open>all_matched_args\<close> merged with the extra keyword
  arguments whose keys are parameter names of the target, and its outcome is that of
  the invocation: the target's return value, or the error the invocation raises.
\<close>

theorem call_matched_or_error:
  "(\<not> matched r \<longrightarrow> call r t additional = Inl RuntimeError)
   \<and> (matched r \<longrightarrow>
        call r t additional
          = invoke t (\<lambda>k. if k \<in> set (param_names t)
                          then (case additional k of Some v \<Rightarrow> Some v
                                | None \<Rightarrow> (case other_args r k of Some v \<Rightarrow> Some v
                                            | None \<Rightarrow> main_args r k))
                          else None))"
proof -
  have "(all_matched_args r ++ additional) |` set (param_names t)
       = (\<lambda>k. if k \<in> set (param_names t)
               then (case additional k of Some v \<Rightarrow> Some v
                     | None \<Rightarrow> (case other_args r k of Some v \<Rightarrow> Some v
                                 | None \<Rightarrow> main_args r k))
               else None)"
    by (rule ext) (simp add: restrict_map_def map_add_def all_matched_args_def split: option.splits)
  then show ?thesis
    by (simp add: call_def)
qed

theorem call_witness:
  "\<not> matched unmatched_arparma \<and> call unmatched_arparma target_x Map.empty = Inl RuntimeError
   \<and> matched x_arparma \<and> call x_arparma target_x [''y'' \<mapsto> PInt 2] = Inr (PInt 1)"
  using call_matched_or_error [of unmatched_arparma target_x Map.empty]
    call_matched_or_error [of x_arparma target_x "[''y'' \<mapsto> PInt 2]"]
  by (simp add: unmatched_arparma_def x_arparma_def Arparma_new_def target_x_def)

section \<open>Properties of the compiled alias table\<close>

lemma compile_alias_other: "b \<noteq> alias \<Longrightarrow> compile_alias option alias data b = data b"
  by (simp add: compile_alias_def split: option.splits param.splits)

lemma compile_alias_same:
  "compile_alias option alias data alias =
     Some (Opts (case data alias of
                   Some (Opts li) \<Rightarrow> if li \<noteq> [] then sort_by_priority (li @ [option]) else [option]
                 | _ \<Rightarrow> [option]))"
  by (simp add: compile_alias_def split: option.splits param.splits)

lemma fold_compile_alias:
  "distinct as \<Longrightarrow>
   fold (compile_alias option) as data b =
     (if b \<in> set as then compile_alias option b data b else data b)"
proof (induction as arbitrary: data)
  case Nil
  then show ?case by simp
next
  case (Cons a as)
  show ?case
  proof (cases "b = a")
    case True
    with Cons show ?thesis by (simp add: compile_alias_same)
  next
    case False
    with Cons show ?thesis by (simp add: compile_alias_same compile_alias_other)
  qed
qed

lemma fold_compile_alias_other:
  "b \<notin> set as \<Longrightarrow> fold (compile_alias option) as data b = data b"
  by (induction as arbitrary: data) (auto simp: compile_alias_other)

lemma compile_opts_other:
  "b \<notin> set (aliases option) \<Longrightarrow> compile_opts option data b = data b"
  by (simp add: compile_opts_def fold_compile_alias_other)

lemma compile_opts_alias:
  "distinct (aliases option) \<Longrightarrow> b \<in> set (aliases option) \<Longrightarrow>
   compile_opts option data b =
     Some (Opts (case data b of
                   Some (Opts li) \<Rightarrow> if li \<noteq> [] then sort_by_priority (li @ [option]) else [option]
                 | _ \<Rightarrow> [option]))"
  by (simp add: compile_opts_def fold_compile_alias compile_alias_same)

lemma sort_by_priority_mset: "mset (sort_by_priority li) = mset li"
  by (simp add: sort_by_priority_def)

lemma sort_by_priority_sorted:
  "sorted_wrt (\<lambda>x y. priority x \<ge> priority y) (sort_by_priority li)"
proof -
  have "sorted (map (\<lambda>x. - priority x) (sort_key (\<lambda>x. - priority x) li))"
    by (rule sorted_sort_key)
  then show ?thesis
    by (simp add: sort_by_priority_def sorted_map)
qed

lemma sort_by_priority_stable:
  "filter (\<lambda>x. priority x = p) (sort_by_priority li) = filter (\<lambda>x. priority x = p) li"
  using sort_key_stable [of "\<lambda>x. - priority x" "- p" li]
  by (simp add: sort_by_priority_def)

text \<open>
  Claim C7: every call of \<open>_compile_opts\<close> preserves the invariant of the alias table:
  if before the call every alias declared by a registered option is mapped to a list,
  and every list of the table holds exactly the registered options that declare its
  alias, in descending priority with equal priorities in registration order, then the
  same holds after the call with the new option registered last. The aliases of an
  option are a set, so the loop visits each once.
\<close>

theorem compile_opts_preserves_invariant:
  assumes inv: "alias_table_inv data registered"
    and dist: "distinct (aliases option)"
  shows "alias_table_inv (compile_opts option data) (registered @ [option])"
proof -
  have is_list: "\<exists>li. compile_opts option data k = Some (Opts li)"
    if declared: "declaring k (registered @ [option]) \<noteq> []" for k
  proof (cases "k \<in> set (aliases option)")
    case True
    then show ?thesis using dist by (simp add: compile_opts_alias)
  next
    case False
    with declared have "declaring k registered \<noteq> []"
      by (simp add: declaring_def)
    with inv obtain li where "data k = Some (Opts li)"
      unfolding alias_table_inv_def by blast
    with False show ?thesis by (simp add: compile_opts_other)
  qed
  have props: "mset li = mset (declaring k (registered @ [option]))
      \<and> sorted_wrt (\<lambda>x y. priority x \<ge> priority y) li
      \<and> (\<forall>p. filter (\<lambda>x. priority x = p) li
               = filter (\<lambda>x. priority x = p) (declaring k (registered @ [option])))"
    if new: "compile_opts option data k = Some (Opts li)" for k li
  proof (cases "k \<in> set (aliases option)")
    case False
    then have "data k = Some (Opts li)"
      "declaring k (registered @ [option]) = declaring k registered"
      using new by (simp_all add: compile_opts_other declaring_def)
    with inv show ?thesis
      unfolding alias_table_inv_def by metis
  next
    case True
    then have new_eq: "declaring k (registered @ [option]) = declaring k registered @ [option]"
      by (simp add: declaring_def)
    show ?thesis
    proof (cases "\<exists>old. data k = Some (Opts old) \<and> old \<noteq> []")
      case True
      then obtain old where old: "data k = Some (Opts old)" "old \<noteq> []"
        by blast
      with inv have old_props: "mset old = mset (declaring k registered)"
          "\<And>p. filter (\<lambda>x. priority x = p) old
                = filter (\<lambda>x. priority x = p) (declaring k registered)"
        unfolding alias_table_inv_def by metis+
      from old \<open>k \<in> set (aliases option)\<close> dist new
      have "li = sort_by_priority (old @ [option])"
        by (simp add: compile_opts_alias)
      then show ?thesis
        by (simp add: new_eq sort_by_priority_mset sort_by_priority_sorted
            sort_by_priority_stable old_props)
    next
      case False
      then have li: "li = [option]"
        using \<open>k \<in> set (aliases option)\<close> dist new
        by (auto simp: compile_opts_alias split: option.splits param.splits if_splits)
      have "declaring k registered = []"
      proof (rule ccontr)
        assume nonempty: "declaring k registered \<noteq> []"
        with inv obtain old where old: "data k = Some (Opts old)"
          unfolding alias_table_inv_def by blast
        with inv have "mset old = mset (declaring k registered)"
          unfolding alias_table_inv_def by metis
        with nonempty have "old \<noteq> []" by auto
        with old False show False by blast
      qed
      with li show ?thesis by (simp add: new_eq)
    qed
  qed
  show ?thesis
    unfolding alias_table_inv_def using is_list props by blast
qed

theorem compile_opts_invariant_witness:
  "alias_table_inv (Map.empty :: string \<rightharpoonup> unit param) []
   \<and> distinct (aliases low_option) \<and> distinct (aliases high_option)
   \<and> distinct (aliases late_option)
   \<and> alias_table_inv
        (compile_opts late_option
           (compile_opts high_option (compile_opts low_option (Map.empty :: string \<rightharpoonup> unit param))))
        [low_option, high_option, late_option]
   \<and> compile_opts late_option
        (compile_opts high_option (compile_opts low_option (Map.empty :: string \<rightharpoonup> unit param)))
        ''-x''
      = Some (Opts [high_option, low_option, late_option])"
proof -
  let ?e = "Map.empty :: string \<rightharpoonup> unit param"
  have start: "alias_table_inv ?e []"
    by (simp add: alias_table_inv_def declaring_def)
  have d: "distinct (aliases low_option)" "distinct (aliases high_option)"
    "distinct (aliases late_option)"
    by (simp_all add: low_option_def high_option_def late_option_def)
  have table: "compile_opts late_option (compile_opts high_option (compile_opts low_option ?e))
        ''-x'' = Some (Opts [high_option, low_option, late_option])"
    by (simp add: compile_opts_def compile_alias_def sort_by_priority_def
        low_option_def high_option_def late_option_def)
  from compile_opts_preserves_invariant
         [OF compile_opts_preserves_invariant
               [OF compile_opts_preserves_invariant [OF start d(1)] d(2)] d(3)]
  have "alias_table_inv
        (compile_opts late_option (compile_opts high_option (compile_opts low_option ?e)))
        [low_option, high_option, late_option]"
    by simp
  with start d table show ?thesis by simp
qed

section \<open>Properties of the parameter parser\<close>

lemma setdefault_apply:
  "setdefault k v d w = (if w = k \<and> d w = None then Some v else d w)"
  by (auto simp: setdefault_def domIff)

lemma add_sentences_Cons:
  "add_sentences (k # ks) d = add_sentences ks (setdefault k (Sentence k) d)"
  by (simp add: add_sentences_def)

lemma add_sentences_apply:
  "add_sentences ks d w = (if w \<in> set ks \<and> d w = None then Some (Sentence w) else d w)"
proof (induction ks arbitrary: d)
  case Nil
  then show ?case by (simp add: add_sentences_def)
next
  case (Cons k ks)
  have "add_sentences (k # ks) d w = add_sentences ks (setdefault k (Sentence k) d) w"
    by (simp only: add_sentences_Cons)
  also have "\<dots> = (if w \<in> set ks \<and> setdefault k (Sentence k) d w = None
                   then Some (Sentence w) else setdefault k (Sentence k) d w)"
    by (rule Cons.IH)
  also have "\<dots> = (if w \<in> set (k # ks) \<and> d w = None then Some (Sentence w) else d w)"
    by (auto simp: setdefault_apply)
  finally show ?case .
qed

lemma add_sentences_Nil: "add_sentences [] d = d"
  by (simp add: add_sentences_def)

lemma compile_opts_None: "compile_opts opt d w = None \<Longrightarrow> d w = None"
proof (cases "w \<in> set (aliases opt)")
  case True
  have "\<And>data. w \<in> set as \<Longrightarrow> fold (compile_alias opt) as data w \<noteq> None" for as
  proof (induction as)
    case Nil
    then show ?case by simp
  next
    case (Cons a as)
    show ?case
    proof (cases "w \<in> set as")
      case True
      then show ?thesis by (simp add: Cons.IH)
    next
      case False
      with Cons.prems have "w = a" by simp
      with False show ?thesis
        by (simp add: fold_compile_alias_other compile_alias_same)
    qed
  qed
  with True have "compile_opts opt d w \<noteq> None"
    by (simp add: compile_opts_def)
  moreover assume "compile_opts opt d w = None"
  ultimately show ?thesis by simp
next
  case False
  assume "compile_opts opt d w = None"
  with False show ?thesis by (simp add: compile_opts_other)
qed

lemma fold_max_length:
  "fold (\<lambda>x m. max (length (f x)) m) xs m0 = Max (insert m0 (set (map (\<lambda>x. length (f x)) xs)))"
proof (induction xs arbitrary: m0)
  case Nil
  then show ?case by simp
next
  case (Cons x xs)
  have "Max (insert (max (length (f x)) m0) (set (map (\<lambda>x. length (f x)) xs)))
      = Max (insert m0 (insert (length (f x)) (set (map (\<lambda>x. length (f x)) xs))))"
    by (cases "set (map (\<lambda>x. length (f x)) xs) = {}")
       (simp_all add: max.commute max.left_commute)
  then show ?case
    by (simp add: Cons.IH)
qed

subsection \<open>The loop over the options of a subcommand\<close>

lemma sub_opts_step_parts:
  "sub_opts_step x (sp, n, ids)
     = (sub_table_step x sp, max (length (requires x)) n, ids \<union> set (aliases x))"
  by (simp add: sub_opts_step_def sub_table_step_def Let_def add_sentences_Nil)

lemma fold_sub_opts_step:
  "fold sub_opts_step xs (sp, n, ids)
     = (fold sub_table_step xs sp,
        fold (\<lambda>x m. max (length (requires x)) m) xs n,
        ids \<union> (\<Union>x \<in> set xs. set (aliases x)))"
  by (induction xs arbitrary: sp n ids) (auto simp: sub_opts_step_parts)

lemma compile_subcommand_fst:
  "fst (compile_subcommand sub ids)
     = sub\<lparr>sub_params := fold sub_table_step (node_options sub) (sub_params sub),
           sub_part_len := length (node_options sub) + (if nargs sub \<noteq> 0 then 1 else 0)
                           + max_requires (map requires (node_options sub))\<rparr>"
  by (simp add: compile_subcommand_def fold_sub_opts_step fold_max_length max_requires_def
      comp_def)

lemma compile_subcommand_snd:
  "snd (compile_subcommand sub ids)
     = insert (name sub) ids \<union> (\<Union>x \<in> set (node_options sub). set (aliases x))"
  by (simp add: compile_subcommand_def fold_sub_opts_step)

lemma sub_table_step_apply:
  "w \<notin> set (aliases x) \<Longrightarrow>
   sub_table_step x sp w = (if w \<in> set (requires x) \<and> sp w = None then Some (Sentence w) else sp w)"
  by (simp add: sub_table_step_def add_sentences_apply compile_opts_other)

lemma sub_table_step_dom: "sub_table_step x sp w = None \<Longrightarrow> sp w = None \<and> w \<notin> set (requires x)"
  by (auto simp: sub_table_step_def add_sentences_apply dest: compile_opts_None split: if_splits)

lemma fold_sub_table_step_dom:
  "fold sub_table_step xs sp w = None \<Longrightarrow> sp w = None \<and> (\<forall>x \<in> set xs. w \<notin> set (requires x))"
proof (induction xs arbitrary: sp)
  case Nil
  then show ?case by simp
next
  case (Cons x xs)
  from Cons.prems have "fold sub_table_step xs (sub_table_step x sp) w = None"
    by simp
  from Cons.IH [OF this] show ?case
    by (auto dest: sub_table_step_dom)
qed

lemma fold_sub_table_step_apply:
  "\<forall>x \<in> set xs. w \<notin> set (aliases x) \<Longrightarrow>
   fold sub_table_step xs sp w
     = (if sp w = None \<and> (\<exists>x \<in> set xs. w \<in> set (requires x)) then Some (Sentence w) else sp w)"
proof (induction xs arbitrary: sp)
  case Nil
  then show ?case by simp
next
  case (Cons x xs)
  then have "w \<notin> set (aliases x)" and rest: "\<forall>x \<in> set xs. w \<notin> set (aliases x)"
    by simp_all
  then show ?case
    by (auto simp: Cons.IH [OF rest] sub_table_step_apply)
qed

subsection \<open>The loop over the options of the command\<close>

lemma node_step_fields:
  assumes "node_step opts (a, n, visited) = (a', n', visited')"
  shows "command_params a' = node_table_step opts (command_params a)"
    and "param_ids a' = param_ids a \<union> node_ids opts"
    and "part_len a' = length (alconna_options a) + (if need_main_args a then 1 else 0) + n'"
    and "alconna_options a' = alconna_options a"
    and "need_main_args a' = need_main_args a"
    and "n' = max (length (node_requires opts)) n"
    and "visited' = visited @ [compiled_node opts]"
proof -
  show "command_params a' = node_table_step opts (command_params a)"
  proof (cases opts)
    case (NOption opt)
    with assms show ?thesis
      by (cases "requires opt = []")
         (auto simp: node_step_def node_table_step_def Let_def add_sentences_Nil split: if_splits)
  next
    case (NSubcommand sub)
    obtain sub' ids where cs: "compile_subcommand sub (param_ids a) = (sub', ids)"
      by (cases "compile_subcommand sub (param_ids a)")
    have "sub' = fst (compile_subcommand sub {})"
      using cs compile_subcommand_fst [of sub "param_ids a"] compile_subcommand_fst [of sub "{}"]
      by simp
    with NSubcommand cs assms show ?thesis
      by (cases "requires sub = []")
         (auto simp: node_step_def node_table_step_def Let_def add_sentences_Nil split: if_splits)
  qed
  show "param_ids a' = param_ids a \<union> node_ids opts"
  proof (cases opts)
    case (NOption opt)
    with assms show ?thesis
      by (cases "requires opt = []") (auto simp: node_step_def Let_def split: if_splits)
  next
    case (NSubcommand sub)
    obtain sub' ids where cs: "compile_subcommand sub (param_ids a) = (sub', ids)"
      by (cases "compile_subcommand sub (param_ids a)")
    have "ids = insert (name sub) (param_ids a) \<union> (\<Union>x \<in> set (node_options sub). set (aliases x))"
      using cs compile_subcommand_snd [of sub "param_ids a"] by simp
    with NSubcommand cs assms show ?thesis
      by (cases "requires sub = []") (auto simp: node_step_def Let_def split: if_splits)
  qed
  show "part_len a' = length (alconna_options a) + (if need_main_args a then 1 else 0) + n'"
    "alconna_options a' = alconna_options a"
    "need_main_args a' = need_main_args a"
    "n' = max (length (node_requires opts)) n"
    using assms
    by (auto simp: node_step_def Let_def split: node.splits prod.splits if_splits)
  show "visited' = visited @ [compiled_node opts]"
  proof (cases opts)
    case (NOption opt)
    with assms show ?thesis
      by (auto simp: node_step_def compiled_node_def Let_def split: if_splits)
  next
    case (NSubcommand sub)
    obtain sub' ids where cs: "compile_subcommand sub (param_ids a) = (sub', ids)"
      by (cases "compile_subcommand sub (param_ids a)")
    have "sub' = fst (compile_subcommand sub {})"
      using cs compile_subcommand_fst [of sub "param_ids a"] compile_subcommand_fst [of sub "{}"]
      by simp
    with NSubcommand cs assms show ?thesis
      by (auto simp: node_step_def compiled_node_def Let_def split: if_splits)
  qed
qed

lemma fold_node_step_fields:
  assumes "fold node_step ns (a, n, visited) = (a', n', visited')"
  shows "command_params a' = fold node_table_step ns (command_params a)
       \<and> param_ids a' = param_ids a \<union> (\<Union>x \<in> set ns. node_ids x)
       \<and> part_len a' = (if ns = [] then part_len a
                         else length (alconna_options a) + (if need_main_args a then 1 else 0) + n')
       \<and> alconna_options a' = alconna_options a
       \<and> need_main_args a' = need_main_args a
       \<and> n' = fold (\<lambda>x m. max (length (node_requires x)) m) ns n
       \<and> visited' = visited @ map compiled_node ns"
  using assms
proof (induction ns arbitrary: a n visited)
  case Nil
  then show ?case by simp
next
  case (Cons x ns)
  obtain a1 n1 v1 where step: "node_step x (a, n, visited) = (a1, n1, v1)"
    by (cases "node_step x (a, n, visited)")
  with Cons.prems have rest: "fold node_step ns (a1, n1, v1) = (a', n', visited')"
    by simp
  note f = node_step_fields [OF step]
  note ih = Cons.IH [OF rest]
  show ?case
  proof (cases "ns = []")
    case True
    with rest have "a' = a1" "n' = n1" "visited' = v1" by simp_all
    with True f show ?thesis by simp
  next
    case False
    with ih f show ?thesis by (auto simp: Un_assoc)
  qed
qed

lemma default_params_parser_fields:
  "command_params (default_params_parser a)
     = fold node_table_step (alconna_options a) (command_params a)"
  "param_ids (default_params_parser a)
     = param_ids a \<union> (\<Union>x \<in> set (alconna_options a). node_ids x)"
  "part_len (default_params_parser a)
     = (if alconna_options a = [] then part_len a
        else length (alconna_options a) + (if need_main_args a then 1 else 0)
             + max_requires (map node_requires (alconna_options a)))"
  "alconna_options (default_params_parser a) = map compiled_node (alconna_options a)"
proof -
  obtain a' n' v' where run: "fold node_step (alconna_options a) (a, 0, []) = (a', n', v')"
    by (cases "fold node_step (alconna_options a) (a, 0, [])")
  note f = fold_node_step_fields [OF run]
  have n': "n' = max_requires (map node_requires (alconna_options a))"
    using f by (simp add: fold_max_length max_requires_def comp_def)
  have dpp: "default_params_parser a = a'\<lparr>alconna_options := v'\<rparr>"
    by (simp add: default_params_parser_def run)
  show "command_params (default_params_parser a)
     = fold node_table_step (alconna_options a) (command_params a)"
    "param_ids (default_params_parser a)
     = param_ids a \<union> (\<Union>x \<in> set (alconna_options a). node_ids x)"
    "alconna_options (default_params_parser a) = map compiled_node (alconna_options a)"
    using f by (simp_all add: dpp)
  show "part_len (default_params_parser a)
     = (if alconna_options a = [] then part_len a
        else length (alconna_options a) + (if need_main_args a then 1 else 0)
             + max_requires (map node_requires (alconna_options a)))"
    using f n' by (simp add: dpp)
qed

text \<open>
  The bound on the number of iterations. The assignment to \<open>part_len\<close> is the last
  statement of the loop body, so it is made once a command has an entry in its options;
  the options of a compiled command hold at least the built-in ones, and
  \<open>analyse_option\<close> and \<open>analyse_subcommand\<close> append a node before they call the parser.
  Without any entry the loop body does not run and \<open>part_len\<close> keeps its value.
\<close>

lemma part_len_with_options:
  "alconna_options a \<noteq> [] \<Longrightarrow>
   part_len (default_params_parser a)
     = length (alconna_options a) + (if need_main_args a then 1 else 0)
       + max_requires (map node_requires (alconna_options a))"
  by (simp add: default_params_parser_fields)

lemma part_len_no_options:
  "alconna_options a = [] \<Longrightarrow> part_len (default_params_parser a) = part_len a"
  by (simp add: default_params_parser_fields)

lemma sub_part_len_compiled:
  assumes "NSubcommand sub \<in> set (alconna_options a)"
    and "compiled_node (NSubcommand sub) = NSubcommand sub'"
  shows "NSubcommand sub' \<in> set (alconna_options (default_params_parser a))"
    and "sub_part_len sub'
           = length (node_options sub) + (if nargs sub \<noteq> 0 then 1 else 0)
             + max_requires (map requires (node_options sub))"
proof -
  from assms(1) have "compiled_node (NSubcommand sub) \<in> compiled_node ` set (alconna_options a)"
    by (rule imageI)
  with assms(2) show "NSubcommand sub' \<in> set (alconna_options (default_params_parser a))"
    by (simp add: default_params_parser_fields)
  from assms(2) have "sub' = fst (compile_subcommand sub {})"
    by (simp add: compiled_node_def)
  then show "sub_part_len sub'
           = length (node_options sub) + (if nargs sub \<noteq> 0 then 1 else 0)
             + max_requires (map requires (node_options sub))"
    by (simp add: compile_subcommand_fst)
qed

text \<open>
  Claim C6: after \<open>default_params_parser\<close> on the analyser of a command, whose options
  are not empty, \<open>part_len\<close> is \<open>range(N)\<close> with \<open>N\<close> the number of top-level options,
  plus 1 if main args are needed, plus the length of the longest requirement chain of
  a top-level option (0 when none has one). Every subcommand is left in the options
  with \<open>sub_part_len\<close> equal to \<open>range\<close> of the number of its own options, plus 1 if it
  has args of its own, plus the length of the longest requirement chain of its options.
\<close>

theorem part_len_bounds:
  assumes "alconna_options a \<noteq> []"
  shows "part_len (default_params_parser a)
           = length (alconna_options a) + (if need_main_args a then 1 else 0)
             + max_requires (map node_requires (alconna_options a))
       \<and> (\<forall>sub sub'. NSubcommand sub \<in> set (alconna_options a)
              \<and> compiled_node (NSubcommand sub) = NSubcommand sub'
            \<longrightarrow> NSubcommand sub' \<in> set (alconna_options (default_params_parser a))
              \<and> sub_part_len sub'
                  = length (node_options sub) + (if nargs sub \<noteq> 0 then 1 else 0)
                    + max_requires (map requires (node_options sub)))"
proof (intro conjI allI impI)
  from assms show "part_len (default_params_parser a)
           = length (alconna_options a) + (if need_main_args a then 1 else 0)
             + max_requires (map node_requires (alconna_options a))"
    by (rule part_len_with_options)
next
  fix sub sub'
  assume s: "NSubcommand sub \<in> set (alconna_options a)
             \<and> compiled_node (NSubcommand sub) = NSubcommand sub'"
  then show "NSubcommand sub' \<in> set (alconna_options (default_params_parser a))"
    using sub_part_len_compiled(1) by blast
  from s show "sub_part_len sub'
                  = length (node_options sub) + (if nargs sub \<noteq> 0 then 1 else 0)
                    + max_requires (map requires (node_options sub))"
    using sub_part_len_compiled(2) by blast
qed

theorem part_len_bounds_witness:
  "alconna_options (new_analyser [NOption set_option, NSubcommand user_subcommand] True) \<noteq> []
   \<and> part_len (default_params_parser
        (new_analyser [NOption set_option, NSubcommand user_subcommand] True)) = 4
   \<and> NSubcommand (fst (compile_subcommand user_subcommand {}))
        \<in> set (alconna_options (default_params_parser
              (new_analyser [NOption set_option, NSubcommand user_subcommand] True)))
   \<and> sub_part_len (fst (compile_subcommand user_subcommand {})) = 3"
proof -
  let ?a = "new_analyser [NOption set_option, NSubcommand user_subcommand] True"
  let ?sub' = "fst (compile_subcommand user_subcommand {})"
  have opts: "alconna_options ?a = [NOption set_option, NSubcommand user_subcommand]"
    and need: "need_main_args ?a"
    by (simp_all add: new_analyser_def)
  have fields: "requires set_option = [''perm'']" "requires user_subcommand = [''lp'']"
    "node_options user_subcommand = [set_option]" "nargs user_subcommand = 1"
    by (simp_all add: set_option_def user_subcommand_def)
  have nonempty: "alconna_options ?a \<noteq> []"
    by (simp add: opts)
  have s: "NSubcommand user_subcommand \<in> set (alconna_options ?a)
           \<and> compiled_node (NSubcommand user_subcommand) = NSubcommand ?sub'"
    by (simp add: opts compiled_node_def)
  note T = part_len_bounds [OF nonempty]
  from T have "part_len (default_params_parser ?a)
      = length (alconna_options ?a) + (if need_main_args ?a then 1 else 0)
        + max_requires (map node_requires (alconna_options ?a))"
    by (rule conjunct1)
  then have top: "part_len (default_params_parser ?a) = 4"
    by (simp add: opts need fields max_requires_def)
  from T s have "NSubcommand ?sub' \<in> set (alconna_options (default_params_parser ?a))
      \<and> sub_part_len ?sub'
          = length (node_options user_subcommand) + (if nargs user_subcommand \<noteq> 0 then 1 else 0)
            + max_requires (map requires (node_options user_subcommand))"
    by blast
  then have sub: "NSubcommand ?sub' \<in> set (alconna_options (default_params_parser ?a))
      \<and> sub_part_len ?sub' = 3"
    by (simp add: fields max_requires_def)
  from nonempty top sub show ?thesis
    by blast
qed

subsection \<open>Requirement words\<close>

lemma node_table_step_apply:
  "w \<notin> option_aliases x \<Longrightarrow>
   node_table_step x cp w
     = (if w \<in> set (node_requires x) \<and> cp w = None then Some (Sentence w) else cp w)"
  by (cases x) (simp_all add: node_table_step_def add_sentences_apply compile_opts_other)

lemma node_table_step_dom:
  "node_table_step x cp w = None \<Longrightarrow> cp w = None \<and> w \<notin> set (node_requires x)"
  by (cases x)
     (auto simp: node_table_step_def add_sentences_apply dest: compile_opts_None
           split: if_splits)

lemma fold_node_table_step_dom:
  "fold node_table_step xs cp w = None \<Longrightarrow>
   cp w = None \<and> (\<forall>x \<in> set xs. w \<notin> set (node_requires x))"
proof (induction xs arbitrary: cp)
  case Nil
  then show ?case by simp
next
  case (Cons x xs)
  from Cons.prems have "fold node_table_step xs (node_table_step x cp) w = None"
    by simp
  from Cons.IH [OF this] show ?case
    by (auto dest: node_table_step_dom)
qed

lemma fold_node_table_step_apply:
  "\<forall>x \<in> set xs. w \<notin> option_aliases x \<Longrightarrow>
   fold node_table_step xs cp w
     = (if cp w = None \<and> (\<exists>x \<in> set xs. w \<in> set (node_requires x))
        then Some (Sentence w) else cp w)"
proof (induction xs arbitrary: cp)
  case Nil
  then show ?case by simp
next
  case (Cons x xs)
  then have "w \<notin> option_aliases x" and rest: "\<forall>x \<in> set xs. w \<notin> option_aliases x"
    by simp_all
  then show ?case
    by (auto simp: Cons.IH [OF rest] node_table_step_apply)
qed

lemma node_requires_ids: "set (node_requires x) \<subseteq> node_ids x"
  by (cases x) auto

text \<open>
  Claim C8, as the spec states it: after \<open>default_params_parser\<close>, every requirement
  word of a top-level option is in \<open>param_ids\<close> and is mapped to its \<open>Sentence\<close> unless
  it was already mapped. A word that was not mapped gets its \<open>Sentence\<close>, and a later
  option with that word as an alias replaces the \<open>Sentence\<close> by its own list, since
  \<open>_compile_opts\<close> keeps a non-empty list only.
\<close>

theorem requirement_overwritten_counterexample:
  "''perm'' \<in> set (requires set_option)
   \<and> command_params (new_analyser [NOption set_option, NOption perm_option] False) ''perm'' = None
   \<and> command_params
        (default_params_parser (new_analyser [NOption set_option, NOption perm_option] False))
        ''perm''
      = Some (Opts [perm_option])"
  by (simp add: default_params_parser_def node_step_def new_analyser_def Let_def
      compile_opts_def compile_alias_def add_sentences_def setdefault_def
      set_option_def perm_option_def)

text \<open>
  Claim C8, amended: after \<open>default_params_parser\<close>, every requirement word of a
  top-level option or subcommand is a member of \<open>param_ids\<close> and a key of
  \<open>command_params\<close>, and it is mapped to the \<open>Sentence\<close> of that word unless it was
  mapped before the parser ran or is an alias of a top-level option or the name of a
  top-level subcommand. Likewise every requirement word of an option of a subcommand
  is a key of that subcommand's \<open>sub_params\<close>, mapped to its \<open>Sentence\<close> unless it was
  mapped before or is an alias of an option of the subcommand.
\<close>

theorem requirement_words_compiled:
  "(\<forall>x \<in> set (alconna_options a). \<forall>w \<in> set (node_requires x).
       w \<in> param_ids (default_params_parser a)
       \<and> w \<in> dom (command_params (default_params_parser a))
       \<and> (w \<notin> dom (command_params a) \<and> (\<forall>y \<in> set (alconna_options a). w \<notin> option_aliases y)
            \<longrightarrow> command_params (default_params_parser a) w = Some (Sentence w)))
   \<and> (\<forall>sub sub'. NSubcommand sub \<in> set (alconna_options a)
          \<and> compiled_node (NSubcommand sub) = NSubcommand sub'
        \<longrightarrow> NSubcommand sub' \<in> set (alconna_options (default_params_parser a))
          \<and> (\<forall>x \<in> set (node_options sub). \<forall>w \<in> set (requires x).
                w \<in> dom (sub_params sub')
                \<and> (w \<notin> dom (sub_params sub) \<and> (\<forall>y \<in> set (node_options sub). w \<notin> set (aliases y))
                     \<longrightarrow> sub_params sub' w = Some (Sentence w))))"
proof (intro conjI ballI allI impI)
  fix x w
  assume x: "x \<in> set (alconna_options a)" and w: "w \<in> set (node_requires x)"
  from x w node_requires_ids [of x] show "w \<in> param_ids (default_params_parser a)"
    by (auto simp: default_params_parser_fields)
  from x w have "fold node_table_step (alconna_options a) (command_params a) w \<noteq> None"
    using fold_node_table_step_dom by blast
  then show "w \<in> dom (command_params (default_params_parser a))"
    by (simp add: default_params_parser_fields domIff)
  assume "w \<notin> dom (command_params a) \<and> (\<forall>y \<in> set (alconna_options a). w \<notin> option_aliases y)"
  with x w show "command_params (default_params_parser a) w = Some (Sentence w)"
    by (auto simp: default_params_parser_fields fold_node_table_step_apply domIff)
next
  fix sub sub'
  assume "NSubcommand sub \<in> set (alconna_options a)
          \<and> compiled_node (NSubcommand sub) = NSubcommand sub'"
  then show "NSubcommand sub' \<in> set (alconna_options (default_params_parser a))"
    using sub_part_len_compiled(1) by blast
next
  fix sub sub' x w
  assume s: "NSubcommand sub \<in> set (alconna_options a)
          \<and> compiled_node (NSubcommand sub) = NSubcommand sub'"
    and x: "x \<in> set (node_options sub)" and w: "w \<in> set (requires x)"
  from s have sp: "sub_params sub' = fold sub_table_step (node_options sub) (sub_params sub)"
    by (auto simp: compiled_node_def compile_subcommand_fst)
  from x w have "fold sub_table_step (node_options sub) (sub_params sub) w \<noteq> None"
    using fold_sub_table_step_dom by blast
  then show "w \<in> dom (sub_params sub')"
    by (simp add: sp domIff)
  assume "w \<notin> dom (sub_params sub) \<and> (\<forall>y \<in> set (node_options sub). w \<notin> set (aliases y))"
  with x w show "sub_params sub' w = Some (Sentence w)"
    by (auto simp: sp fold_sub_table_step_apply domIff)
qed

theorem requirement_words_witness:
  "NOption set_option \<in> set (alconna_options
       (new_analyser [NOption set_option, NSubcommand user_subcommand] True))
   \<and> ''perm'' \<in> set (node_requires (NOption set_option))
   \<and> ''perm'' \<notin> dom (command_params
       (new_analyser [NOption set_option, NSubcommand user_subcommand] True))
   \<and> ''perm'' \<in> param_ids (default_params_parser
       (new_analyser [NOption set_option, NSubcommand user_subcommand] True))
   \<and> command_params (default_params_parser
       (new_analyser [NOption set_option, NSubcommand user_subcommand] True)) ''perm''
     = Some (Sentence ''perm'')
   \<and> sub_params (fst (compile_subcommand user_subcommand {})) ''perm''
     = Some (Sentence ''perm'')"
proof -
  let ?a = "new_analyser [NOption set_option, NSubcommand user_subcommand] True"
  let ?sub' = "fst (compile_subcommand user_subcommand {})"
  have opts: "alconna_options ?a = [NOption set_option, NSubcommand user_subcommand]"
    and cp: "command_params ?a = Map.empty"
    by (simp_all add: new_analyser_def)
  have fields: "aliases set_option = [''set'']" "requires set_option = [''perm'']"
    "name user_subcommand = ''user''" "node_options user_subcommand = [set_option]"
    "sub_params user_subcommand = Map.empty"
    by (simp_all add: set_option_def user_subcommand_def)
  have x: "NOption set_option \<in> set (alconna_options ?a)"
    and w: "''perm'' \<in> set (node_requires (NOption set_option))"
    and free: "''perm'' \<notin> dom (command_params ?a)
               \<and> (\<forall>y \<in> set (alconna_options ?a). ''perm'' \<notin> option_aliases y)"
    by (simp_all add: opts cp fields)
  have s: "NSubcommand user_subcommand \<in> set (alconna_options ?a)
           \<and> compiled_node (NSubcommand user_subcommand) = NSubcommand ?sub'"
    by (simp add: opts compiled_node_def)
  have sx: "set_option \<in> set (node_options user_subcommand)"
    and sw: "''perm'' \<in> set (requires set_option)"
    and sfree: "''perm'' \<notin> dom (sub_params user_subcommand)
                \<and> (\<forall>y \<in> set (node_options user_subcommand). ''perm'' \<notin> set (aliases y))"
    by (simp_all add: fields)
  note T = requirement_words_compiled [of ?a]
  from T x w free
  have top: "''perm'' \<in> param_ids (default_params_parser ?a)
      \<and> command_params (default_params_parser ?a) ''perm'' = Some (Sentence ''perm'')"
    by blast
  from T s sx sw sfree
  have "sub_params ?sub' ''perm'' = Some (Sentence ''perm'')"
    by blast
  with x w free top show ?thesis
    by blast
qed

end
